theory Spec2Isabelle
  imports Complex_Main "HOL-Library.Log_Nat"
begin

section \<open>Gradient descent for univariate linear regression\<close>

text \<open>
  The notebook \<^verbatim>\<open>7.Gradient_Descent_Optimisiation.ipynb\<close> defines three functions,
  \<^verbatim>\<open>compute_cost\<close>, \<^verbatim>\<open>compute_gradient\<close> and \<^verbatim>\<open>gradient_descent\<close>, over one-dimensional
  numpy arrays. They are embedded here as HOL functions.

  \<^item> An array is a \<open>real list\<close>; \<^verbatim>\<open>x.shape[0]\<close> is its length.
  \<^item> A number is a \<open>real\<close>: the arithmetic is the exact arithmetic of the formulas in the
    code. The rounding, the infinities and the NaN of binary64 are not part of the model.
    The one exception is the division \<^verbatim>\<open>num_iters/10\<close> of two Python integers, which is
    modelled with its binary64 rounding and its \<^verbatim>\<open>OverflowError\<close>.
  \<^item> A Python exception is a value \<open>Inl e\<close> of the result type \<open>error + 'a\<close>; every place
    where the code can raise is a branch of the model.
  \<^item> The output of \<^verbatim>\<open>print\<close> is a list of the printed tuples, carried in the loop state.
\<close>

datatype error = ZeroDivisionError | IndexError | OverflowError

subsection \<open>The training set of the notebook\<close>

definition x_train :: "real list" where
  "x_train = [1, 2]"

definition y_train :: "real list" where
  "y_train = [300, 500]"

subsection \<open>\<^verbatim>\<open>compute_cost\<close>\<close>

text \<open>
  \<^verbatim>\<open>for i in range(n)\<close> with the running sum \<^verbatim>\<open>cost_sum\<close>. Reading \<^verbatim>\<open>x[i]\<close> or \<^verbatim>\<open>y[i]\<close>
  past the end of the array raises \<^verbatim>\<open>IndexError\<close>.
\<close>

function cost_loop ::
  "real list \<Rightarrow> real list \<Rightarrow> real \<Rightarrow> real \<Rightarrow> nat \<Rightarrow> nat \<Rightarrow> real \<Rightarrow> error + real" where
  "cost_loop x y m b n i cost_sum =
     (if i < n then
        (if i < length x \<and> i < length y then
           (let f_mb = m * x ! i + b;
                cost = (f_mb - y ! i) ^ 2
            in cost_loop x y m b n (Suc i) (cost_sum + cost))
         else Inl IndexError)
      else Inr cost_sum)"
  by pat_completeness auto
termination
  by (relation "measure (\<lambda>(x, y, m, b, n, i, cost_sum). n - i)") auto

declare cost_loop.simps [simp del]

text \<open>
  \<^verbatim>\<open>total_cost = (1 / (2 * n)) * cost_sum\<close>: \<^verbatim>\<open>n\<close> is a Python integer, so the division
  raises \<^verbatim>\<open>ZeroDivisionError\<close> when \<^verbatim>\<open>2 * n\<close> is zero.
\<close>

definition compute_cost :: "real list \<Rightarrow> real list \<Rightarrow> real \<Rightarrow> real \<Rightarrow> error + real" where
  "compute_cost x y m b =
     (let n = length x in
      case cost_loop x y m b n 0 0 of
        Inl e \<Rightarrow> Inl e
      | Inr cost_sum \<Rightarrow>
          if 2 * n = 0 then Inl ZeroDivisionError
          else Inr ((1 / (2 * real n)) * cost_sum))"

subsection \<open>\<^verbatim>\<open>compute_gradient\<close>\<close>

function gradient_loop ::
  "real list \<Rightarrow> real list \<Rightarrow> real \<Rightarrow> real \<Rightarrow> nat \<Rightarrow> nat \<Rightarrow> real \<times> real \<Rightarrow> error + real \<times> real" where
  "gradient_loop x y m b n i acc =
     (if i < n then
        (if i < length x \<and> i < length y then
           (let (dj_dm, dj_db) = acc;
                f_mb = m * x ! i + b;
                dj_dm_i = (f_mb - y ! i) * x ! i;
                dj_db_i = f_mb - y ! i;
                dj_db = dj_db + dj_db_i;
                dj_dm = dj_dm + dj_dm_i
            in gradient_loop x y m b n (Suc i) (dj_dm, dj_db))
         else Inl IndexError)
      else Inr acc)"
  by pat_completeness auto
termination
  by (relation "measure (\<lambda>(x, y, m, b, n, i, acc). n - i)") auto

declare gradient_loop.simps [simp del]

text \<open>
  \<^verbatim>\<open>dj_dm = dj_dm / n\<close> and \<^verbatim>\<open>dj_db = dj_db / n\<close>: with \<^verbatim>\<open>n = 0\<close> the loop has not run,
  both sums are still the Python integer \<^verbatim>\<open>0\<close>, and the first division raises
  \<^verbatim>\<open>ZeroDivisionError\<close>.
\<close>

definition compute_gradient ::
  "real list \<Rightarrow> real list \<Rightarrow> real \<Rightarrow> real \<Rightarrow> error + real \<times> real" where
  "compute_gradient x y m b =
     (let n = length x in
      case gradient_loop x y m b n 0 (0, 0) of
        Inl e \<Rightarrow> Inl e
      | Inr (dj_dm, dj_db) \<Rightarrow>
          if n = 0 then Inl ZeroDivisionError
          else Inr (dj_dm / real n, dj_db / real n))"

subsection \<open>\<^verbatim>\<open>gradient_descent\<close>\<close>

type_synonym cost_fn = "real list \<Rightarrow> real list \<Rightarrow> real \<Rightarrow> real \<Rightarrow> error + real"
type_synonym gradient_fn = "real list \<Rightarrow> real list \<Rightarrow> real \<Rightarrow> real \<Rightarrow> error + real \<times> real"

text \<open>
  What the function returns: \<^verbatim>\<open>m, b, J_history, p_history\<close>. An entry of \<^verbatim>\<open>p_history\<close>
  is the two-element list \<^verbatim>\<open>[m, b]\<close>.
\<close>

type_synonym gd_result = "real \<times> real \<times> real list \<times> real list list"

text \<open>
  One printed line: the values of \<^verbatim>\<open>i\<close>, \<^verbatim>\<open>J_history[-1]\<close>, \<^verbatim>\<open>dj_dm\<close>, \<^verbatim>\<open>dj_db\<close>,
  \<^verbatim>\<open>m\<close> and \<^verbatim>\<open>b\<close> that the format string shows.
\<close>

type_synonym print_line = "nat \<times> real \<times> real \<times> real \<times> real \<times> real"

text \<open>
  The first half of the loop body, at index \<open>i\<close>: the gradient at the current \<open>(m, b)\<close>,
  the update of \<open>b\<close> and of \<open>m\<close>, and the two appends guarded by \<^verbatim>\<open>i < 100000\<close>. It returns
  the gradient too, which the print statement shows.
\<close>

definition gd_update ::
  "real list \<Rightarrow> real list \<Rightarrow> real \<Rightarrow> cost_fn \<Rightarrow> gradient_fn \<Rightarrow> nat \<Rightarrow> gd_result
     \<Rightarrow> error + (real \<times> real) \<times> gd_result" where
  "gd_update x y alpha cost_function gradient_function i st =
     (case st of (m, b, J_history, p_history) \<Rightarrow>
        case gradient_function x y m b of
          Inl e \<Rightarrow> Inl e
        | Inr (dj_dm, dj_db) \<Rightarrow>
            let b = b - alpha * dj_db;
                m = m - alpha * dj_dm
            in if i < 100000 then
                 (case cost_function x y m b of
                    Inl e \<Rightarrow> Inl e
                  | Inr c \<Rightarrow> Inr ((dj_dm, dj_db), (m, b, J_history @ [c], p_history @ [[m, b]])))
               else Inr ((dj_dm, dj_db), (m, b, J_history, p_history)))"

text \<open>
  \<^verbatim>\<open>num_iters/10\<close> divides two Python integers: the result is the binary64 number
  nearest to the exact quotient, ties going to the even significand, and the division
  raises \<^verbatim>\<open>OverflowError\<close> when that number would be \<open>2\<^sup>1\<^sup>0\<^sup>2\<^sup>4\<close> or more in
  magnitude, which is when \<open>\<bar>num_iters\<bar> / 10 \<ge> 2\<^sup>1\<^sup>0\<^sup>2\<^sup>4 - 2\<^sup>9\<^sup>7\<^sup>0\<close>. The float is kept
  as a pair \<open>(M, s)\<close> of integers, standing for \<open>M * 2\<^sup>s\<close>; \<open>2\<^sup>5\<^sup>2 \<le> \<bar>M\<bar> \<le> 2\<^sup>5\<^sup>3\<close> unless
  the quotient is zero.
\<close>

text \<open>The integer nearest to \<open>a / b\<close> for \<open>b > 0\<close>, a tie going to the even one.\<close>

definition round_half_even :: "int \<Rightarrow> int \<Rightarrow> int" where
  "round_half_even a b =
     (let q = a div b; r = a mod b
      in if 2 * r < b then q else if b < 2 * r then q + 1 else if even q then q else q + 1)"

text \<open>
  The exponent \<open>e\<close> with \<open>2\<^sup>e \<le> \<bar>n\<bar> / 10 < 2\<^sup>e\<^sup>+\<^sup>1\<close>, for \<open>n \<noteq> 0\<close>: with \<open>L\<close> the number of
  bits of \<open>\<bar>n\<bar>\<close> it is \<open>L - 4\<close> or \<open>L - 5\<close>.
\<close>

definition quotient_exponent :: "int \<Rightarrow> int" where
  "quotient_exponent n =
     (let L = bitlen \<bar>n\<bar> in if 10 * 2 ^ nat L \<le> 16 * \<bar>n\<bar> then L - 4 else L - 5)"

definition overflow_bound :: int where
  "overflow_bound = 10 * (2 ^ 1024 - 2 ^ 970)"

definition true_divide_10 :: "int \<Rightarrow> error + int \<times> int" where
  "true_divide_10 n =
     (if overflow_bound \<le> \<bar>n\<bar> then Inl OverflowError
      else if n = 0 then Inr (0, 0)
      else let s = quotient_exponent n - 52
           in if 0 \<le> s then Inr (round_half_even n (10 * 2 ^ nat s), s)
              else Inr (round_half_even (n * 2 ^ nat (- s)) 10, s))"

text \<open>\<^verbatim>\<open>math.ceil\<close> of the float \<open>M * 2\<^sup>s\<close>, a Python integer.\<close>

definition math_ceil :: "int \<times> int \<Rightarrow> int" where
  "math_ceil f = (case f of (M, s) \<Rightarrow>
     if 0 \<le> s then M * 2 ^ nat s else - ((- M) div 2 ^ nat (- s)))"

text \<open>\<^verbatim>\<open>math.ceil(num_iters/10)\<close>.\<close>

definition print_interval :: "int \<Rightarrow> error + int" where
  "print_interval num_iters =
     (case true_divide_10 num_iters of Inl e \<Rightarrow> Inl e | Inr f \<Rightarrow> Inr (math_ceil f))"

text \<open>
  The second half of the loop body: \<^verbatim>\<open>if i % math.ceil(num_iters/10) == 0: print(...)\<close>.
  The division can raise \<^verbatim>\<open>OverflowError\<close>, the modulo raises \<^verbatim>\<open>ZeroDivisionError\<close> on a
  zero interval, and \<^verbatim>\<open>J_history[-1]\<close> raises \<^verbatim>\<open>IndexError\<close> on an empty history.
\<close>

definition gd_print ::
  "int \<Rightarrow> nat \<Rightarrow> real \<times> real \<Rightarrow> gd_result \<Rightarrow> print_line list \<Rightarrow> error + print_line list" where
  "gd_print num_iters i grad st out =
     (case st of (m, b, J_history, p_history) \<Rightarrow>
        case print_interval num_iters of
          Inl e \<Rightarrow> Inl e
        | Inr interval \<Rightarrow>
            if interval = 0 then Inl ZeroDivisionError
            else if int i mod interval = 0 then
              (if J_history = [] then Inl IndexError
               else Inr (out @ [(i, last J_history, fst grad, snd grad, m, b)]))
            else Inr out)"

text \<open>\<^verbatim>\<open>for i in range(num_iters)\<close>; the range of a negative number is empty.\<close>

function gd_loop ::
  "real list \<Rightarrow> real list \<Rightarrow> real \<Rightarrow> int \<Rightarrow> cost_fn \<Rightarrow> gradient_fn \<Rightarrow> nat
     \<Rightarrow> gd_result \<times> print_line list \<Rightarrow> error + gd_result \<times> print_line list" where
  "gd_loop x y alpha num_iters cost_function gradient_function i s =
     (if int i < num_iters then
        (case gd_update x y alpha cost_function gradient_function i (fst s) of
           Inl e \<Rightarrow> Inl e
         | Inr (grad, st) \<Rightarrow>
             (case gd_print num_iters i grad st (snd s) of
                Inl e \<Rightarrow> Inl e
              | Inr out \<Rightarrow>
                  gd_loop x y alpha num_iters cost_function gradient_function (Suc i) (st, out)))
      else Inr s)"
  by pat_completeness auto
termination
  by (relation "measure (\<lambda>(x, y, alpha, num_iters, cf, gf, i, s). nat (num_iters - int i))") auto

declare gd_loop.simps [simp del]

text \<open>
  The whole run, with what it printed: the histories start empty and \<open>(m, b)\<close> starts at
  \<open>(m_in, b_in)\<close>.
\<close>

definition gradient_descent_run ::
  "real list \<Rightarrow> real list \<Rightarrow> real \<Rightarrow> real \<Rightarrow> real \<Rightarrow> int \<Rightarrow> cost_fn \<Rightarrow> gradient_fn
     \<Rightarrow> error + gd_result \<times> print_line list" where
  "gradient_descent_run x y m_in b_in alpha num_iters cost_function gradient_function =
     gd_loop x y alpha num_iters cost_function gradient_function 0 ((m_in, b_in, [], []), [])"

text \<open>The value of the call: \<^verbatim>\<open>return m, b, J_history, p_history\<close>.\<close>

definition gradient_descent ::
  "real list \<Rightarrow> real list \<Rightarrow> real \<Rightarrow> real \<Rightarrow> real \<Rightarrow> int \<Rightarrow> cost_fn \<Rightarrow> gradient_fn
     \<Rightarrow> error + gd_result" where
  "gradient_descent x y m_in b_in alpha num_iters cost_function gradient_function =
     (case gradient_descent_run x y m_in b_in alpha num_iters cost_function gradient_function of
        Inl e \<Rightarrow> Inl e
      | Inr (st, out) \<Rightarrow> Inr st)"

text \<open>
  The learning rate of the notebook's first run, \<^verbatim>\<open>tmp_alpha = 1.0e-2\<close>: the binary64
  number that the literal denotes, a little above \<open>1 / 100\<close>.
\<close>

definition tmp_alpha :: real where
  "tmp_alpha = 5764607523034235 / 2 ^ 59"

subsection \<open>The run, iteration by iteration\<close>

text \<open>
  \<open>gd_after \<dots> n\<close> is the tuple \<open>(m, b, J_history, p_history)\<close> that the loop holds once it
  has completed \<open>n\<close> iterations, built from the last iteration backwards. Nothing of the
  notebook is defined by it: it is the yardstick that the loop is measured against
  (lemma \<open>gradient_descent_after\<close>).
\<close>

fun gd_after ::
  "real list \<Rightarrow> real list \<Rightarrow> real \<Rightarrow> cost_fn \<Rightarrow> gradient_fn \<Rightarrow> real \<Rightarrow> real \<Rightarrow> nat
     \<Rightarrow> error + gd_result" where
  "gd_after x y alpha cf gf m_in b_in 0 = Inr (m_in, b_in, [], [])"
| "gd_after x y alpha cf gf m_in b_in (Suc n) =
     (case gd_after x y alpha cf gf m_in b_in n of
        Inl e \<Rightarrow> Inl e
      | Inr st \<Rightarrow>
          (case gd_update x y alpha cf gf n st of
             Inl e \<Rightarrow> Inl e
           | Inr (grad, st') \<Rightarrow> Inr st'))"

section \<open>The two loops over the training set\<close>

text \<open>
  On arrays of at least \<open>n\<close> elements each loop runs to its end and has added one term
  per index to what it started from.
\<close>

lemma cost_loop_sum:
  "n \<le> length x \<Longrightarrow> n \<le> length y \<Longrightarrow> i \<le> n \<Longrightarrow>
   cost_loop x y m b n i s = Inr (s + (\<Sum>j = i..<n. (m * x ! j + b - y ! j) ^ 2))"
proof (induction x y m b n i s rule: cost_loop.induct)
  case (1 x y m b n i cost_sum)
  show ?case
  proof (cases "i < n")
    case True
    with "1.prems" have inb: "i < length x \<and> i < length y" by simp
    from True have "Suc i \<le> n" by simp
    with "1.IH" True inb "1.prems"
    have "cost_loop x y m b n (Suc i) (cost_sum + (m * x ! i + b - y ! i) ^ 2) =
      Inr (cost_sum + (m * x ! i + b - y ! i) ^ 2 + (\<Sum>j = Suc i..<n. (m * x ! j + b - y ! j) ^ 2))"
      by simp
    with True inb show ?thesis
      by (subst cost_loop.simps) (simp add: sum.atLeast_Suc_lessThan add.assoc Let_def)
  next
    case False
    with "1.prems" have "i = n" by simp
    then show ?thesis by (subst cost_loop.simps) simp
  qed
qed

lemma gradient_loop_sum:
  "n \<le> length x \<Longrightarrow> n \<le> length y \<Longrightarrow> i \<le> n \<Longrightarrow>
   gradient_loop x y m b n i (dm, db) =
     Inr (dm + (\<Sum>j = i..<n. (m * x ! j + b - y ! j) * x ! j),
          db + (\<Sum>j = i..<n. m * x ! j + b - y ! j))"
proof (induction x y m b n i "(dm, db)" arbitrary: dm db rule: gradient_loop.induct)
  case (1 x y m b n i)
  show ?case
  proof (cases "i < n")
    case True
    with "1.prems" have inb: "i < length x \<and> i < length y" by simp
    from True have "Suc i \<le> n" by simp
    with "1.hyps"[OF True inb refl refl refl refl refl refl refl] "1.prems"
    have "gradient_loop x y m b n (Suc i)
            (dm + (m * x ! i + b - y ! i) * x ! i, db + (m * x ! i + b - y ! i)) =
      Inr (dm + (m * x ! i + b - y ! i) * x ! i + (\<Sum>j = Suc i..<n. (m * x ! j + b - y ! j) * x ! j),
           db + (m * x ! i + b - y ! i) + (\<Sum>j = Suc i..<n. m * x ! j + b - y ! j))"
      by simp
    with True inb show ?thesis
      by (subst gradient_loop.simps) (simp add: sum.atLeast_Suc_lessThan add.assoc Let_def)
  next
    case False
    with "1.prems" have "i = n" by simp
    then show ?thesis by (subst gradient_loop.simps) simp
  qed
qed

section \<open>The descent loop and the run after \<open>n\<close> iterations\<close>

lemma gd_update_cases:
  assumes "gd_update x y alpha cf gf i (m, b, J, P) = Inr (grad, st')"
  shows "\<exists>dm db. gf x y m b = Inr (dm, db) \<and> grad = (dm, db) \<and>
           (if i < 100000
            then \<exists>c. cf x y (m - alpha * dm) (b - alpha * db) = Inr c \<and>
                   st' = (m - alpha * dm, b - alpha * db, J @ [c],
                          P @ [[m - alpha * dm, b - alpha * db]])
            else st' = (m - alpha * dm, b - alpha * db, J, P))"
  using assms
  by (auto simp: gd_update_def Let_def split: sum.splits prod.splits if_splits)

lemma gd_after_error_mono:
  "gd_after x y alpha cf gf m_in b_in n = Inl e \<Longrightarrow>
   gd_after x y alpha cf gf m_in b_in (n + k) = Inl e"
  by (induction k) simp_all

lemma gd_after_error_le:
  assumes "gd_after x y alpha cf gf m_in b_in n = Inl e" and "n \<le> n'"
  shows "gd_after x y alpha cf gf m_in b_in n' = Inl e"
  using gd_after_error_mono[OF assms(1), of "n' - n"] assms(2) by simp

lemma gd_after_prefix:
  assumes "gd_after x y alpha cf gf m_in b_in n = Inr st" and "i \<le> n"
  shows "\<exists>st'. gd_after x y alpha cf gf m_in b_in i = Inr st'"
proof (cases "gd_after x y alpha cf gf m_in b_in i")
  case (Inl e)
  from gd_after_error_le[OF Inl assms(2)] assms(1) show ?thesis by simp
next
  case (Inr st')
  then show ?thesis by blast
qed

lemma gd_after_Suc_Inr:
  assumes "gd_after x y alpha cf gf m_in b_in (Suc n) = Inr st'"
  shows "\<exists>st grad. gd_after x y alpha cf gf m_in b_in n = Inr st \<and>
           gd_update x y alpha cf gf n st = Inr (grad, st')"
  using assms by (auto split: sum.splits)

lemma gd_after_length:
  "gd_after x y alpha cf gf m_in b_in n = Inr (m, b, J, P) \<Longrightarrow>
   length J = min n 100000 \<and> length P = min n 100000"
proof (induction n arbitrary: m b J P)
  case 0
  then show ?case by simp
next
  case (Suc n)
  from gd_after_Suc_Inr[OF Suc.prems] obtain st grad where
    st: "gd_after x y alpha cf gf m_in b_in n = Inr st" and
    up: "gd_update x y alpha cf gf n st = Inr (grad, (m, b, J, P))" by blast
  obtain m0 b0 J0 P0 where st_eq: "st = (m0, b0, J0, P0)" by (cases st) auto
  from Suc.IH[OF st[unfolded st_eq]] have len: "length J0 = min n 100000" "length P0 = min n 100000"
    by simp_all
  from gd_update_cases[OF up[unfolded st_eq]] len show ?case
    by (auto split: if_splits)
qed

lemma round_half_even_ge_1:
  assumes "0 < b" and "b \<le> a"
  shows "1 \<le> round_half_even a b"
proof -
  from assms have "0 < a div b" by (simp add: pos_imp_zdiv_pos_iff)
  then show ?thesis by (simp add: round_half_even_def Let_def)
qed

lemma significand_pos:
  assumes "0 < n" and "true_divide_10 n = Inr (M, s)"
  shows "1 \<le> M"
proof -
  define L where "L = bitlen \<bar>n\<bar>"
  from assms(1) have low: "2 ^ nat (L - 1) \<le> n"
    using bitlen_bounds[of n] by (simp add: L_def)
  have e: "quotient_exponent n - 52 \<le> L - 56"
    by (simp add: quotient_exponent_def Let_def L_def)
  from assms have s: "s = quotient_exponent n - 52"
    by (auto simp: true_divide_10_def Let_def split: if_splits)
  show ?thesis
  proof (cases "0 \<le> s")
    case True
    with assms s have M: "M = round_half_even n (10 * 2 ^ nat s)"
      by (auto simp: true_divide_10_def Let_def split: if_splits)
    from True e s have "nat s + 4 \<le> nat (L - 1)" by linarith
    then have "(2::int) ^ (nat s + 4) \<le> 2 ^ nat (L - 1)"
      by (rule power_increasing) simp
    moreover have "(10::int) * 2 ^ nat s \<le> 2 ^ (nat s + 4)" by (simp add: power_add)
    ultimately have "10 * 2 ^ nat s \<le> n" using low by linarith
    then show ?thesis unfolding M by (intro round_half_even_ge_1) simp_all
  next
    case False
    with assms s have M: "M = round_half_even (n * 2 ^ nat (- s)) 10"
      by (auto simp: true_divide_10_def Let_def split: if_splits)
    have "10 \<le> n * 2 ^ nat (- s)"
    proof (cases "10 \<le> n")
      case True
      have "(1::int) \<le> 2 ^ nat (- s)" by simp
      with True have "n * 1 \<le> n * 2 ^ nat (- s)" by (intro mult_left_mono) simp_all
      then have "n \<le> n * 2 ^ nat (- s)" by (simp only: mult_1_right)
      with True show ?thesis by linarith
    next
      case small: False
      have "L \<le> 4"
      proof (rule ccontr)
        assume "\<not> L \<le> 4"
        then have "4 \<le> nat (L - 1)" by simp
        then have "(2::int) ^ 4 \<le> 2 ^ nat (L - 1)" by (rule power_increasing) simp
        with low small show False by simp
      qed
      with e s have "4 \<le> nat (- s)" by simp
      then have "(2::int) ^ 4 \<le> 2 ^ nat (- s)" by (rule power_increasing) simp
      then have "n * 2 ^ 4 \<le> n * 2 ^ nat (- s)" using assms(1) by (intro mult_left_mono) simp_all
      moreover from assms(1) have "10 \<le> n * 2 ^ 4" by simp
      ultimately show ?thesis by linarith
    qed
    then show ?thesis unfolding M by (intro round_half_even_ge_1) simp_all
  qed
qed

lemma print_interval_pos:
  assumes "0 < num_iters" and "num_iters < overflow_bound"
  shows "\<exists>interval. print_interval num_iters = Inr interval \<and> 0 < interval"
proof -
  from assms have "\<exists>f. true_divide_10 num_iters = Inr f"
    by (simp add: true_divide_10_def Let_def)
  then obtain f where f: "true_divide_10 num_iters = Inr f" ..
  obtain M s where Ms: "f = (M, s)" by (cases f) auto
  from significand_pos[OF assms(1) f[unfolded Ms]] have M: "1 \<le> M" .
  have "0 < math_ceil (M, s)"
  proof (cases "0 \<le> s")
    case True
    with M show ?thesis by (simp add: math_ceil_def)
  next
    case False
    from M have "(- M) div 2 ^ nat (- s) < 0" by (simp add: div_neg_pos_less0)
    with False show ?thesis by (simp add: math_ceil_def)
  qed
  with f Ms show ?thesis by (simp add: print_interval_def)
qed

text \<open>
  The notebook's \<open>20000\<close> iterations print every \<open>2000\<close>th line. From about \<open>10\<^sup>1\<^sup>6\<close> on
  the rounded quotient can be an integer where the exact one is not, and the interval
  is then one less than the exact ceiling.
\<close>

lemma print_interval_examples:
  "print_interval 20000 = Inr 2000"
  "print_interval 7 = Inr 1"
  "print_interval 11258999068426241 = Inr 1125899906842624"
  "print_interval 100000000000000007 = Inr 10000000000000000"
  by code_simp+

lemma print_interval_overflow:
  assumes "overflow_bound \<le> num_iters"
  shows "print_interval num_iters = Inl OverflowError"
proof -
  from assms have "overflow_bound \<le> \<bar>num_iters\<bar>" by simp
  then show ?thesis by (simp add: print_interval_def true_divide_10_def)
qed

lemma gd_loop_after:
  assumes "gd_after x y alpha cf gf m_in b_in i = Inr (fst s)"
    and "num_iters < overflow_bound"
  shows "(case gd_loop x y alpha num_iters cf gf i s of
            Inl e \<Rightarrow> Inl e | Inr (st', out') \<Rightarrow> Inr st') =
         gd_after x y alpha cf gf m_in b_in (max i (nat num_iters))"
  using assms
proof (induction x y alpha num_iters cf gf i s rule: gd_loop.induct)
  case (1 x y alpha num_iters cf gf i s)
  show ?case
  proof (cases "int i < num_iters")
    case False
    then have "max i (nat num_iters) = i" by simp
    with False "1.prems"(1) show ?thesis
      by (subst gd_loop.simps) (simp add: case_prod_beta)
  next
    case True
    then have le: "Suc i \<le> max i (nat num_iters)" by simp
    show ?thesis
    proof (cases "gd_update x y alpha cf gf i (fst s)")
      case (Inl e)
      with "1.prems"(1) have "gd_after x y alpha cf gf m_in b_in (Suc i) = Inl e" by simp
      from gd_after_error_le[OF this le] Inl True show ?thesis
        by (subst gd_loop.simps) simp
    next
      case (Inr r)
      obtain grad st' where r: "r = (grad, st')" by (cases r) auto
      with Inr "1.prems"(1) have after: "gd_after x y alpha cf gf m_in b_in (Suc i) = Inr st'"
        by simp
      obtain m b J P where st': "st' = (m, b, J, P)" by (cases st') auto
      from gd_after_length[OF after[unfolded st']] have "J \<noteq> []" by auto
      moreover from True "1.prems"(2)
      obtain interval where "print_interval num_iters = Inr interval" and "interval \<noteq> 0"
        using print_interval_pos[of num_iters] by auto
      ultimately have "\<exists>out'. gd_print num_iters i grad st' (snd s) = Inr out'"
        by (simp add: gd_print_def st')
      then obtain out' where pr: "gd_print num_iters i grad st' (snd s) = Inr out'" ..
      from True have mx: "max (Suc i) (nat num_iters) = max i (nat num_iters)" by simp
      from after have "gd_after x y alpha cf gf m_in b_in (Suc i) = Inr (fst (st', out'))"
        by simp
      from "1.IH"[OF True Inr[unfolded r] refl pr this "1.prems"(2)]
      have "(case gd_loop x y alpha num_iters cf gf (Suc i) (st', out') of
               Inl e \<Rightarrow> Inl e | Inr (st'', out'') \<Rightarrow> Inr st'') =
            gd_after x y alpha cf gf m_in b_in (max i (nat num_iters))"
        by (simp add: mx)
      with True Inr r pr show ?thesis
        by (subst gd_loop.simps) simp
    qed
  qed
qed

lemma gradient_descent_after:
  "num_iters < overflow_bound \<Longrightarrow>
   gradient_descent x y m_in b_in alpha num_iters cf gf =
   gd_after x y alpha cf gf m_in b_in (nat num_iters)"
  using gd_loop_after[of x y alpha cf gf m_in b_in 0 "((m_in, b_in, [], []), [])" num_iters]
  by (simp add: gradient_descent_def gradient_descent_run_def)

text \<open>
  A count from \<open>overflow_bound\<close> on never returns: iteration \<open>0\<close> ends in an exception,
  that of the gradient or cost function or the \<^verbatim>\<open>OverflowError\<close> of the division.
\<close>

lemma gd_print_overflow:
  "overflow_bound \<le> num_iters \<Longrightarrow> gd_print num_iters i grad st out = Inl OverflowError"
  by (simp add: gd_print_def print_interval_overflow split: prod.splits)

lemma overflow_bound_pos: "0 < overflow_bound"
  by (simp add: overflow_bound_def)

lemma gradient_descent_returns_bound:
  assumes "gradient_descent x y m_in b_in alpha num_iters cf gf = Inr res"
  shows "num_iters < overflow_bound"
proof (rule ccontr)
  assume "\<not> num_iters < overflow_bound"
  then have big: "overflow_bound \<le> num_iters" by simp
  with overflow_bound_pos have "int 0 < num_iters" by simp
  then have "\<exists>e. gd_loop x y alpha num_iters cf gf 0 ((m_in, b_in, [], []), []) = Inl e"
    by (subst gd_loop.simps) (simp add: gd_print_overflow[OF big] split: sum.splits prod.splits)
  with assms show False
    by (auto simp: gradient_descent_def gradient_descent_run_def)
qed

lemma gradient_descent_returns_after:
  assumes "gradient_descent x y m_in b_in alpha num_iters cf gf = Inr res"
  shows "gd_after x y alpha cf gf m_in b_in (nat num_iters) = Inr res"
  using assms gradient_descent_after[OF gradient_descent_returns_bound[OF assms]] by simp

text \<open>
  What one more iteration does to the tuple, the entries of the histories, the last
  entry, the histories past the cap, and the runs that cannot fail.
\<close>

lemma gd_after_step:
  assumes "gd_after x y alpha cf gf m_in b_in (Suc n) = Inr st'"
  shows "\<exists>m b J P dm db.
           gd_after x y alpha cf gf m_in b_in n = Inr (m, b, J, P) \<and>
           gf x y m b = Inr (dm, db) \<and>
           (if n < 100000
            then \<exists>c. cf x y (m - alpha * dm) (b - alpha * db) = Inr c \<and>
                   st' = (m - alpha * dm, b - alpha * db, J @ [c],
                          P @ [[m - alpha * dm, b - alpha * db]])
            else st' = (m - alpha * dm, b - alpha * db, J, P))"
proof -
  from gd_after_Suc_Inr[OF assms] obtain st grad where
    st: "gd_after x y alpha cf gf m_in b_in n = Inr st" and
    up: "gd_update x y alpha cf gf n st = Inr (grad, st')" by blast
  obtain m b J P where st_eq: "st = (m, b, J, P)" by (cases st) auto
  from gd_update_cases[OF up[unfolded st_eq]] st[unfolded st_eq] show ?thesis
    by blast
qed

lemma gd_after_nth:
  "gd_after x y alpha cf gf m_in b_in n = Inr (m, b, J, P) \<Longrightarrow> i < length P \<Longrightarrow>
   \<exists>m' b' J' P'. gd_after x y alpha cf gf m_in b_in (Suc i) = Inr (m', b', J', P') \<and>
      P ! i = [m', b'] \<and> cf x y m' b' = Inr (J ! i)"
proof (induction n arbitrary: m b J P)
  case 0
  then show ?case by simp
next
  case (Suc n)
  from gd_after_step[OF Suc.prems(1)] obtain m0 b0 J0 P0 dm db where
    prev: "gd_after x y alpha cf gf m_in b_in n = Inr (m0, b0, J0, P0)" and
    g: "gf x y m0 b0 = Inr (dm, db)" and
    new: "if n < 100000
          then \<exists>c. cf x y (m0 - alpha * dm) (b0 - alpha * db) = Inr c \<and>
                 (m, b, J, P) = (m0 - alpha * dm, b0 - alpha * db, J0 @ [c],
                                 P0 @ [[m0 - alpha * dm, b0 - alpha * db]])
          else (m, b, J, P) = (m0 - alpha * dm, b0 - alpha * db, J0, P0)"
    by blast
  from gd_after_length[OF prev] have len0: "length J0 = min n 100000" "length P0 = min n 100000"
    by simp_all
  show ?case
  proof (cases "i < length P0")
    case True
    from Suc.IH[OF prev True] obtain m' b' J' P' where
      a: "gd_after x y alpha cf gf m_in b_in (Suc i) = Inr (m', b', J', P')" and
      b: "P0 ! i = [m', b']" and c: "cf x y m' b' = Inr (J0 ! i)" by blast
    from new True len0 have "P ! i = P0 ! i \<and> J ! i = J0 ! i"
      by (auto simp: nth_append split: if_splits)
    with a b c show ?thesis by auto
  next
    case False
    with Suc.prems(2) new have lt: "n < 100000" by (auto split: if_splits)
    with new obtain c where
      c: "cf x y (m0 - alpha * dm) (b0 - alpha * db) = Inr c" and
      eq: "m = m0 - alpha * dm" "b = b0 - alpha * db" "J = J0 @ [c]"
          "P = P0 @ [[m0 - alpha * dm, b0 - alpha * db]]" by auto
    from False Suc.prems(2) eq len0 lt have i: "i = n" by simp
    from i len0 lt eq have "P ! i = [m, b] \<and> J ! i = c" by (simp add: nth_append)
    with c eq Suc.prems(1) i show ?thesis by auto
  qed
qed

lemma gd_after_last:
  assumes "gd_after x y alpha cf gf m_in b_in n = Inr (m, b, J, P)"
    and "0 < n" and "n \<le> 100000"
  shows "P \<noteq> [] \<and> last P = [m, b] \<and> J \<noteq> [] \<and> cf x y m b = Inr (last J)"
proof -
  from assms(2) obtain k where n: "n = Suc k" by (cases n) auto
  with assms(3) have "k < 100000" by simp
  with gd_after_step[OF assms(1)[unfolded n]] show ?thesis by auto
qed

lemma gd_after_capped:
  "gd_after x y alpha cf gf m_in b_in (i + k) = Inr (m, b, J, P) \<Longrightarrow> 100000 \<le> i \<Longrightarrow>
   \<exists>m1 b1. gd_after x y alpha cf gf m_in b_in i = Inr (m1, b1, J, P)"
proof (induction k arbitrary: m b)
  case 0
  then show ?case by simp
next
  case (Suc k)
  from Suc.prems(1) have "gd_after x y alpha cf gf m_in b_in (Suc (i + k)) = Inr (m, b, J, P)"
    by simp
  from gd_after_step[OF this] Suc.prems(2) obtain m0 b0 where
    "gd_after x y alpha cf gf m_in b_in (i + k) = Inr (m0, b0, J, P)" by auto
  from Suc.IH[OF this Suc.prems(2)] show ?case .
qed

lemma gd_after_total:
  assumes "\<And>m b. \<exists>g. gf x y m b = Inr g" and "\<And>m b. \<exists>c. cf x y m b = Inr c"
  shows "\<exists>st. gd_after x y alpha cf gf m_in b_in n = Inr st"
proof (induction n)
  case 0
  show ?case by simp
next
  case (Suc n)
  then obtain m b J P where st: "gd_after x y alpha cf gf m_in b_in n = Inr (m, b, J, P)"
    by (metis prod_cases4)
  from assms(1)[of m b] obtain dm db where g: "gf x y m b = Inr (dm, db)" by fastforce
  from assms(2)[of "m - alpha * dm" "b - alpha * db"] obtain c where
    c: "cf x y (m - alpha * dm) (b - alpha * db) = Inr c" by blast
  from st g c show ?case by (simp add: gd_update_def Let_def)
qed

lemma compute_cost_returns:
  "x \<noteq> [] \<Longrightarrow> length y = length x \<Longrightarrow> \<exists>c. compute_cost x y m b = Inr c"
  by (simp add: compute_cost_def cost_loop_sum Let_def)

lemma compute_gradient_returns:
  "x \<noteq> [] \<Longrightarrow> length y = length x \<Longrightarrow> \<exists>g. compute_gradient x y m b = Inr g"
  by (simp add: compute_gradient_def gradient_loop_sum Let_def)

lemma gradient_descent_returns:
  assumes "x \<noteq> []" and "length y = length x" and "num_iters < overflow_bound"
  shows "\<exists>m b J P. gradient_descent x y m_in b_in alpha num_iters compute_cost compute_gradient =
           Inr (m, b, J, P)"
proof -
  from gd_after_total[of compute_gradient x y compute_cost alpha m_in b_in "nat num_iters"]
    compute_cost_returns[OF assms(1,2)] compute_gradient_returns[OF assms(1,2)]
  obtain st where "gd_after x y alpha compute_cost compute_gradient m_in b_in (nat num_iters) = Inr st"
    by blast
  then show ?thesis by (cases st) (auto simp: gradient_descent_after[OF assms(3)])
qed

lemma train_returns:
  "num_iters < overflow_bound \<Longrightarrow>
   \<exists>m b J P. gradient_descent x_train y_train m_in b_in alpha num_iters compute_cost compute_gradient =
           Inr (m, b, J, P)"
  by (rule gradient_descent_returns) (simp_all add: x_train_def y_train_def)

lemma gd_loop_no_iterations:
  "num_iters \<le> 0 \<Longrightarrow> gd_loop x y alpha num_iters cf gf 0 s = Inr s"
  by (subst gd_loop.simps) simp

lemma compute_gradient_empty: "compute_gradient [] y m b = Inl ZeroDivisionError"
  by (simp add: compute_gradient_def gradient_loop.simps)

lemma gd_loop_empty_training_set:
  "0 < num_iters \<Longrightarrow>
   gd_loop [] y alpha num_iters cf compute_gradient 0 s = Inl ZeroDivisionError"
  by (subst gd_loop.simps)
    (simp add: gd_update_def compute_gradient_empty split: prod.splits)

section \<open>The cost function\<close>

text \<open>
  C1. For a non-empty training set \<open>(x, y)\<close> of equal lengths \<open>n\<close> and any parameters
  \<open>(m, b)\<close>, \<^verbatim>\<open>compute_cost(x, y, m, b)\<close> returns
  \<open>(1 / (2 n)) * (\<Sum> i = 0..n-1. (m * x_i + b - y_i)\<^sup>2)\<close>. The source function assigns
  to its local variables only, so its model is a function of the four arguments and
  nothing else: there is no state for it to change.
\<close>

theorem compute_cost_formula:
  assumes "x \<noteq> []" and "length y = length x"
  shows "compute_cost x y m b =
    Inr ((1 / (2 * real (length x))) * (\<Sum>i = 0..<length x. (m * x ! i + b - y ! i) ^ 2))"
  using assms by (simp add: compute_cost_def cost_loop_sum Let_def)

theorem compute_cost_formula_witness:
  "x_train \<noteq> [] \<and> length y_train = length x_train \<and>
   compute_cost x_train y_train 0 0 = Inr 85000"
  using compute_cost_formula[of x_train y_train 0 0]
  by (simp add: x_train_def y_train_def)

section \<open>The gradient function\<close>

text \<open>
  C2. For a non-empty training set \<open>(x, y)\<close> of equal lengths \<open>n\<close> and any parameters
  \<open>(m, b)\<close>, \<^verbatim>\<open>compute_gradient(x, y, m, b)\<close> returns the pair of
  \<open>(1 / n) * (\<Sum> i. (m * x_i + b - y_i) * x_i)\<close> and \<open>(1 / n) * (\<Sum> i. m * x_i + b - y_i)\<close>.
  As for the cost, the model is a function of the four arguments only.
\<close>

theorem compute_gradient_formula:
  assumes "x \<noteq> []" and "length y = length x"
  shows "compute_gradient x y m b =
    Inr ((1 / real (length x)) * (\<Sum>i = 0..<length x. (m * x ! i + b - y ! i) * x ! i),
         (1 / real (length x)) * (\<Sum>i = 0..<length x. m * x ! i + b - y ! i))"
  using assms by (simp add: compute_gradient_def gradient_loop_sum Let_def)

theorem compute_gradient_formula_witness:
  "x_train \<noteq> [] \<and> length y_train = length x_train \<and>
   compute_gradient x_train y_train 0 0 = Inr (- 650, - 400)"
  using compute_gradient_formula[of x_train y_train 0 0]
  by (simp add: x_train_def y_train_def)

text \<open>
  C7. On the training set of the notebook, the gradient at the least-squares optimum
  \<open>(m, b) = (200, 100)\<close> is \<open>(0, 0)\<close>: both residuals are zero there. Every intermediate
  value of this evaluation is an integer below \<open>2\<^sup>5\<^sup>3\<close>, so binary64 computes the same
  zeros.
\<close>

theorem compute_gradient_at_optimum:
  "compute_gradient x_train y_train 200 100 = Inr (0, 0)"
  by (simp add: compute_gradient_def x_train_def y_train_def gradient_loop.simps)

section \<open>Gradient descent\<close>

text \<open>
  C5. With \<^verbatim>\<open>num_iters = 0\<close> the loop body never runs: \<^verbatim>\<open>gradient_descent\<close> returns the
  initial parameters and two empty histories, whatever the training set, the learning
  rate and the two callables are.
\<close>

theorem gradient_descent_zero_iterations:
  "gradient_descent x y m_in b_in alpha 0 cost_function gradient_function =
     Inr (m_in, b_in, [], [])"
  by (simp add: gradient_descent_def gradient_descent_run_def gd_loop.simps)

text \<open>
  C3. Take a call of \<^verbatim>\<open>gradient_descent\<close> with \<open>num_iters\<close> iterations that returns, and
  an index \<open>i\<close> with \<open>0 \<le> i < num_iters\<close>. The tuple \<open>(m, b, J, P)\<close> that the loop holds
  when it enters iteration \<open>i\<close> is what the call with \<open>i\<close> iterations returns. Iteration
  \<open>i\<close> evaluates the gradient function once, at \<open>(m, b)\<close>, and leaves
  \<open>m - alpha * dj_dm\<close> and \<open>b - alpha * dj_db\<close>: both from the old pair and the one
  gradient. If \<open>i < 100000\<close> it appends the cost of the new pair to \<open>J\<close> and the new pair
  to \<open>P\<close>; otherwise the histories stay as they are.
\<close>

theorem gradient_descent_iteration:
  assumes "gradient_descent x y m_in b_in alpha num_iters cf gf = Inr res"
    and "0 \<le> i" and "i < num_iters"
  shows "\<exists>m b J P dj_dm dj_db.
           gradient_descent x y m_in b_in alpha i cf gf = Inr (m, b, J, P) \<and>
           gf x y m b = Inr (dj_dm, dj_db) \<and>
           (if i < 100000
            then \<exists>c. cf x y (m - alpha * dj_dm) (b - alpha * dj_db) = Inr c \<and>
                   gradient_descent x y m_in b_in alpha (i + 1) cf gf =
                     Inr (m - alpha * dj_dm, b - alpha * dj_db, J @ [c],
                          P @ [[m - alpha * dj_dm, b - alpha * dj_db]])
            else gradient_descent x y m_in b_in alpha (i + 1) cf gf =
                   Inr (m - alpha * dj_dm, b - alpha * dj_db, J, P))"
proof -
  from assms(2,3) have le: "Suc (nat i) \<le> nat num_iters" by simp
  from assms(1) have "num_iters < overflow_bound" by (rule gradient_descent_returns_bound)
  with assms(3) have small: "i < overflow_bound" "i + 1 < overflow_bound" by simp_all
  from assms(1) have "gd_after x y alpha cf gf m_in b_in (nat num_iters) = Inr res"
    by (rule gradient_descent_returns_after)
  from gd_after_prefix[OF this le] obtain st' where
    st': "gd_after x y alpha cf gf m_in b_in (Suc (nat i)) = Inr st'" by blast
  from assms(2) have nat_Suc: "nat (i + 1) = Suc (nat i)" by simp
  from assms(2) have lt: "nat i < 100000 \<longleftrightarrow> i < 100000" by auto
  from gd_after_step[OF st'] st' show ?thesis
    unfolding gradient_descent_after[OF small(1)] gradient_descent_after[OF small(2)] nat_Suc lt
    by (auto split: if_splits)
qed

theorem gradient_descent_iteration_witness:
  "(\<exists>m b J P dj_dm dj_db c.
      gradient_descent x_train y_train 0 0 tmp_alpha 0 compute_cost compute_gradient =
        Inr (m, b, J, P) \<and>
      compute_gradient x_train y_train m b = Inr (dj_dm, dj_db) \<and>
      compute_cost x_train y_train (m - tmp_alpha * dj_dm) (b - tmp_alpha * dj_db) = Inr c \<and>
      gradient_descent x_train y_train 0 0 tmp_alpha 1 compute_cost compute_gradient =
        Inr (m - tmp_alpha * dj_dm, b - tmp_alpha * dj_db, J @ [c],
             P @ [[m - tmp_alpha * dj_dm, b - tmp_alpha * dj_db]])) \<and>
   (\<exists>m b J P dj_dm dj_db.
      gradient_descent x_train y_train 0 0 tmp_alpha 100000 compute_cost compute_gradient =
        Inr (m, b, J, P) \<and>
      compute_gradient x_train y_train m b = Inr (dj_dm, dj_db) \<and>
      gradient_descent x_train y_train 0 0 tmp_alpha 100001 compute_cost compute_gradient =
        Inr (m - tmp_alpha * dj_dm, b - tmp_alpha * dj_db, J, P))"
proof -
  obtain res where run:
    "gradient_descent x_train y_train 0 0 tmp_alpha 200000 compute_cost compute_gradient = Inr res"
    using train_returns[where num_iters = 200000 and m_in = 0 and b_in = 0 and alpha = tmp_alpha]
    by (simp add: overflow_bound_def) blast
  have first: "(0::int) \<le> 0 \<and> (0::int) < 200000" by simp
  have later: "(0::int) \<le> 100000 \<and> (100000::int) < 200000" by simp
  from gradient_descent_iteration[OF run, of 0] first
    gradient_descent_iteration[OF run, of 100000] later
  show ?thesis by simp
qed

text \<open>
  C4. When a call with \<open>num_iters \<ge> 0\<close> returns, both histories have length
  \<open>min num_iters 100000\<close>; entry \<open>i\<close> of the parameter history is the pair after
  iteration \<open>i\<close> (what the call with \<open>i + 1\<close> iterations returns) and entry \<open>i\<close> of the
  cost history is the cost of that pair; an iteration at an index from \<open>100000\<close> on
  starts and ends with the final histories and still moves the parameters by the
  gradient step.
\<close>

theorem gradient_descent_history_length:
  assumes "gradient_descent x y m_in b_in alpha num_iters cf gf = Inr (m, b, J, P)"
    and "0 \<le> num_iters"
  shows "int (length J) = min num_iters 100000 \<and> int (length P) = min num_iters 100000 \<and>
         (\<forall>i < length P. \<exists>m' b' J' P'.
            gradient_descent x y m_in b_in alpha (int i + 1) cf gf = Inr (m', b', J', P') \<and>
            P ! i = [m', b'] \<and> cf x y m' b' = Inr (J ! i)) \<and>
         (\<forall>i. 100000 \<le> i \<and> i < num_iters \<longrightarrow> (\<exists>m1 b1 dj_dm dj_db.
            gradient_descent x y m_in b_in alpha i cf gf = Inr (m1, b1, J, P) \<and>
            gf x y m1 b1 = Inr (dj_dm, dj_db) \<and>
            gradient_descent x y m_in b_in alpha (i + 1) cf gf =
              Inr (m1 - alpha * dj_dm, b1 - alpha * dj_db, J, P)))"
proof -
  from assms(1) have bound: "num_iters < overflow_bound" by (rule gradient_descent_returns_bound)
  from assms(1) have after: "gd_after x y alpha cf gf m_in b_in (nat num_iters) = Inr (m, b, J, P)"
    by (rule gradient_descent_returns_after)
  from gd_after_length[OF after] assms(2)
  have len: "int (length J) = min num_iters 100000 \<and> int (length P) = min num_iters 100000"
    by auto
  have nth: "\<exists>m' b' J' P'.
      gradient_descent x y m_in b_in alpha (int i + 1) cf gf = Inr (m', b', J', P') \<and>
      P ! i = [m', b'] \<and> cf x y m' b' = Inr (J ! i)" if "i < length P" for i
  proof -
    have "nat (int i + 1) = Suc i" by simp
    moreover have "int i + 1 < overflow_bound"
    proof -
      from that have "int i + 1 \<le> int (length P)" by simp
      also from len have "\<dots> \<le> num_iters" by simp
      finally show ?thesis using bound by simp
    qed
    ultimately show ?thesis using gd_after_nth[OF after that]
      by (simp add: gradient_descent_after)
  qed
  have beyond: "\<exists>m1 b1 dj_dm dj_db.
      gradient_descent x y m_in b_in alpha i cf gf = Inr (m1, b1, J, P) \<and>
      gf x y m1 b1 = Inr (dj_dm, dj_db) \<and>
      gradient_descent x y m_in b_in alpha (i + 1) cf gf =
        Inr (m1 - alpha * dj_dm, b1 - alpha * dj_db, J, P)"
    if "100000 \<le> i" and "i < num_iters" for i
  proof -
    from that have split: "nat num_iters = Suc (nat i) + (nat num_iters - Suc (nat i))" by simp
    from that have big: "100000 \<le> Suc (nat i)" "100000 \<le> nat i" by simp_all
    from after split
    have "gd_after x y alpha cf gf m_in b_in (Suc (nat i) + (nat num_iters - Suc (nat i))) =
            Inr (m, b, J, P)" by simp
    from gd_after_capped[OF this big(1)] obtain m2 b2 where
      next_st: "gd_after x y alpha cf gf m_in b_in (Suc (nat i)) = Inr (m2, b2, J, P)" by blast
    from that have nat_Suc: "nat (i + 1) = Suc (nat i)" by simp
    from that bound have small: "i < overflow_bound" "i + 1 < overflow_bound" by simp_all
    from gd_after_step[OF next_st] big(2) next_st show ?thesis
      unfolding gradient_descent_after[OF small(1)] gradient_descent_after[OF small(2)] nat_Suc
      by auto
  qed
  from len nth beyond show ?thesis by blast
qed

theorem gradient_descent_history_length_witness:
  "\<exists>m b J P.
     gradient_descent x_train y_train 0 0 tmp_alpha 200000 compute_cost compute_gradient =
       Inr (m, b, J, P) \<and>
     (0::int) \<le> 200000 \<and> length J = 100000 \<and> length P = 100000 \<and>
     (\<exists>m' b' J' P'.
        gradient_descent x_train y_train 0 0 tmp_alpha 1 compute_cost compute_gradient =
          Inr (m', b', J', P') \<and>
        P ! 0 = [m', b'] \<and> compute_cost x_train y_train m' b' = Inr (J ! 0)) \<and>
     (\<exists>m1 b1 dj_dm dj_db.
        gradient_descent x_train y_train 0 0 tmp_alpha 150000 compute_cost compute_gradient =
          Inr (m1, b1, J, P) \<and>
        compute_gradient x_train y_train m1 b1 = Inr (dj_dm, dj_db) \<and>
        gradient_descent x_train y_train 0 0 tmp_alpha 150001 compute_cost compute_gradient =
          Inr (m1 - tmp_alpha * dj_dm, b1 - tmp_alpha * dj_db, J, P))"
proof -
  obtain m b J P where run:
    "gradient_descent x_train y_train 0 0 tmp_alpha 200000 compute_cost compute_gradient =
       Inr (m, b, J, P)"
    using train_returns[where num_iters = 200000 and m_in = 0 and b_in = 0 and alpha = tmp_alpha]
    by (simp add: overflow_bound_def) blast
  have nonneg: "(0::int) \<le> 200000" by simp
  note claim = gradient_descent_history_length[OF run nonneg]
  from claim have len: "length J = 100000" "length P = 100000" by simp_all
  from claim have "\<forall>i < length P. \<exists>m' b' J' P'.
        gradient_descent x_train y_train 0 0 tmp_alpha (int i + 1) compute_cost compute_gradient =
          Inr (m', b', J', P') \<and>
        P ! i = [m', b'] \<and> compute_cost x_train y_train m' b' = Inr (J ! i)"
    by blast
  moreover from len have "0 < length P" by simp
  ultimately have "\<exists>m' b' J' P'.
        gradient_descent x_train y_train 0 0 tmp_alpha (int 0 + 1) compute_cost compute_gradient =
          Inr (m', b', J', P') \<and>
        P ! 0 = [m', b'] \<and> compute_cost x_train y_train m' b' = Inr (J ! 0)"
    by blast
  then have entry: "\<exists>m' b' J' P'.
        gradient_descent x_train y_train 0 0 tmp_alpha 1 compute_cost compute_gradient =
          Inr (m', b', J', P') \<and>
        P ! 0 = [m', b'] \<and> compute_cost x_train y_train m' b' = Inr (J ! 0)"
    by simp
  from claim have "(100000::int) \<le> 150000 \<and> (150000::int) < 200000 \<longrightarrow>
     (\<exists>m1 b1 dj_dm dj_db.
        gradient_descent x_train y_train 0 0 tmp_alpha 150000 compute_cost compute_gradient =
          Inr (m1, b1, J, P) \<and>
        compute_gradient x_train y_train m1 b1 = Inr (dj_dm, dj_db) \<and>
        gradient_descent x_train y_train 0 0 tmp_alpha (150000 + 1) compute_cost compute_gradient =
          Inr (m1 - tmp_alpha * dj_dm, b1 - tmp_alpha * dj_db, J, P))"
    by blast
  then have beyond: "\<exists>m1 b1 dj_dm dj_db.
        gradient_descent x_train y_train 0 0 tmp_alpha 150000 compute_cost compute_gradient =
          Inr (m1, b1, J, P) \<and>
        compute_gradient x_train y_train m1 b1 = Inr (dj_dm, dj_db) \<and>
        gradient_descent x_train y_train 0 0 tmp_alpha 150001 compute_cost compute_gradient =
          Inr (m1 - tmp_alpha * dj_dm, b1 - tmp_alpha * dj_db, J, P)"
    by simp
  from run nonneg len entry beyond show ?thesis by blast
qed

text \<open>
  C9. When a call with \<open>1 \<le> num_iters \<le> 100000\<close> returns \<open>(m, b, J, P)\<close>, the last
  entry of the parameter history is \<open>[m, b]\<close> and the last entry of the cost history is
  the cost at \<open>(m, b)\<close>.
\<close>

theorem gradient_descent_final_is_last:
  assumes "gradient_descent x y m_in b_in alpha num_iters cf gf = Inr (m, b, J, P)"
    and "1 \<le> num_iters" and "num_iters \<le> 100000"
  shows "P \<noteq> [] \<and> last P = [m, b] \<and> J \<noteq> [] \<and> cf x y m b = Inr (last J)"
proof -
  from assms(1) have "gd_after x y alpha cf gf m_in b_in (nat num_iters) = Inr (m, b, J, P)"
    by (rule gradient_descent_returns_after)
  moreover from assms(2,3) have "0 < nat num_iters" "nat num_iters \<le> 100000" by simp_all
  ultimately show ?thesis by (rule gd_after_last)
qed

theorem gradient_descent_final_is_last_witness:
  "\<exists>m b J P.
     gradient_descent x_train y_train 0 0 tmp_alpha 20000 compute_cost compute_gradient =
       Inr (m, b, J, P) \<and>
     (1::int) \<le> 20000 \<and> (20000::int) \<le> 100000 \<and>
     P \<noteq> [] \<and> last P = [m, b] \<and> J \<noteq> [] \<and> compute_cost x_train y_train m b = Inr (last J)"
proof -
  obtain m b J P where run:
    "gradient_descent x_train y_train 0 0 tmp_alpha 20000 compute_cost compute_gradient =
       Inr (m, b, J, P)"
    using train_returns[where num_iters = 20000 and m_in = 0 and b_in = 0 and alpha = tmp_alpha]
    by (simp add: overflow_bound_def) blast
  have bounds: "(1::int) \<le> 20000" "(20000::int) \<le> 100000" by simp_all
  from gradient_descent_final_is_last[OF run bounds] run bounds show ?thesis by blast
qed

text \<open>
  C10. Whenever a call returns, its two histories have the same length, every entry of
  the parameter history is a pair \<open>[m', b']\<close>, and the entry of the cost history at the
  same index is the value of the cost function at that pair.
\<close>

theorem gradient_descent_histories_parallel:
  assumes "gradient_descent x y m_in b_in alpha num_iters cf gf = Inr (m, b, J, P)"
  shows "length J = length P \<and>
         (\<forall>i < length P. \<exists>m' b'. P ! i = [m', b'] \<and> cf x y m' b' = Inr (J ! i))"
proof -
  from assms have after: "gd_after x y alpha cf gf m_in b_in (nat num_iters) = Inr (m, b, J, P)"
    by (rule gradient_descent_returns_after)
  from gd_after_length[OF after] have "length J = length P" by simp
  moreover have "\<exists>m' b'. P ! i = [m', b'] \<and> cf x y m' b' = Inr (J ! i)" if "i < length P" for i
    using gd_after_nth[OF after that] by blast
  ultimately show ?thesis by blast
qed

theorem gradient_descent_histories_parallel_witness:
  "\<exists>m b J P.
     gradient_descent x_train y_train 0 0 tmp_alpha 20000 compute_cost compute_gradient =
       Inr (m, b, J, P) \<and>
     length P = 20000 \<and> length J = length P \<and>
     (\<exists>m' b'. P ! 0 = [m', b'] \<and> compute_cost x_train y_train m' b' = Inr (J ! 0))"
proof -
  obtain m b J P where run:
    "gradient_descent x_train y_train 0 0 tmp_alpha 20000 compute_cost compute_gradient =
       Inr (m, b, J, P)"
    using train_returns[where num_iters = 20000 and m_in = 0 and b_in = 0 and alpha = tmp_alpha]
    by (simp add: overflow_bound_def) blast
  from run have "gd_after x_train y_train tmp_alpha compute_cost compute_gradient 0 0 (nat 20000) =
      Inr (m, b, J, P)" by (rule gradient_descent_returns_after)
  from gd_after_length[OF this] have len: "length P = 20000" by simp
  note claim = gradient_descent_histories_parallel[OF run]
  from claim have "\<forall>i < length P. \<exists>m' b'. P ! i = [m', b'] \<and>
      compute_cost x_train y_train m' b' = Inr (J ! i)"
    by blast
  moreover from len have "0 < length P" by simp
  ultimately
  have "\<exists>m' b'. P ! 0 = [m', b'] \<and> compute_cost x_train y_train m' b' = Inr (J ! 0)"
    by blast
  with claim run len show ?thesis by blast
qed

section \<open>Calls outside the preconditions\<close>

text \<open>
  C6, as stated, fails: the code has no argument check. A negative iteration count
  gives an empty range, and the call returns the initial parameters; so does a call
  with no iterations on an empty training set.
\<close>

theorem negative_iterations_not_rejected:
  "gradient_descent x_train y_train 0 0 tmp_alpha (- 1) compute_cost compute_gradient =
     Inr (0, 0, [], []) \<and>
   gradient_descent [] [] 0 0 tmp_alpha 0 compute_cost compute_gradient = Inr (0, 0, [], [])"
  by (simp add: gradient_descent_def gradient_descent_run_def gd_loop.simps)

text \<open>
  C6, amended. On an empty training set \<^verbatim>\<open>compute_cost\<close> and \<^verbatim>\<open>compute_gradient\<close> raise
  \<^verbatim>\<open>ZeroDivisionError\<close>, the arithmetic error of the division by \<open>n\<close>, and
  \<^verbatim>\<open>gradient_descent\<close> run with \<^verbatim>\<open>compute_gradient\<close> for at least one iteration raises
  it too, in iteration \<open>0\<close>. An iteration count that is negative or zero is not rejected:
  the initial parameters come back with empty histories, on every training set, the
  empty one too.
\<close>

theorem precondition_violations:
  "compute_cost [] y m b = Inl ZeroDivisionError \<and>
   compute_gradient [] y m b = Inl ZeroDivisionError \<and>
   (0 < num_iters \<longrightarrow>
      gradient_descent [] y m_in b_in alpha num_iters cost_function compute_gradient =
        Inl ZeroDivisionError) \<and>
   (num_iters \<le> 0 \<longrightarrow>
      gradient_descent x y m_in b_in alpha num_iters cost_function gradient_function =
        Inr (m_in, b_in, [], []))"
proof -
  have "compute_cost [] y m b = Inl ZeroDivisionError"
    by (simp add: compute_cost_def cost_loop.simps)
  moreover note compute_gradient_empty[of y m b]
  moreover have "gradient_descent [] y m_in b_in alpha num_iters cost_function compute_gradient =
        Inl ZeroDivisionError" if "0 < num_iters"
    using that
    by (simp add: gradient_descent_def gradient_descent_run_def gd_loop_empty_training_set)
  moreover have "gradient_descent x y m_in b_in alpha num_iters cost_function gradient_function =
        Inr (m_in, b_in, [], [])" if "num_iters \<le> 0"
    using that
    by (simp add: gradient_descent_def gradient_descent_run_def gd_loop_no_iterations)
  ultimately show ?thesis by blast
qed

theorem precondition_violations_witness:
  "compute_cost [] [] 0 0 = Inl ZeroDivisionError \<and>
   compute_gradient [] [] 0 0 = Inl ZeroDivisionError \<and>
   gradient_descent [] [] 0 0 tmp_alpha 10 compute_cost compute_gradient =
     Inl ZeroDivisionError \<and>
   gradient_descent x_train y_train 0 0 tmp_alpha (- 10) compute_cost compute_gradient =
     Inr (0, 0, [], [])"
proof -
  have pos: "(0::int) < 10" and neg: "(- 10::int) \<le> 0" by simp_all
  from precondition_violations[where y = "[]" and m = 0 and b = 0 and num_iters = 10 and m_in = 0
      and b_in = 0 and alpha = tmp_alpha and cost_function = compute_cost]
    pos
  have a: "compute_cost [] [] 0 0 = Inl ZeroDivisionError"
    and b: "compute_gradient [] [] 0 0 = Inl ZeroDivisionError"
    and c: "gradient_descent [] [] 0 0 tmp_alpha 10 compute_cost compute_gradient =
     Inl ZeroDivisionError"
    by simp_all
  from precondition_violations[where num_iters = "- 10" and m_in = 0 and b_in = 0 and alpha = tmp_alpha
      and x = x_train and y = y_train and cost_function = compute_cost
      and gradient_function = compute_gradient]
    neg
  have d: "gradient_descent x_train y_train 0 0 tmp_alpha (- 10) compute_cost compute_gradient =
     Inr (0, 0, [], [])"
    by simp
  from a b c d show ?thesis by blast
qed

end
